theory Spec2Isabelle
  imports Main "HOL-Library.Sublist"
begin

section \<open>Data model\<close>

text \<open>
  The backend keeps two collections of documents, folders and images
  (models/Folder.js, models/Image.js). Document identifiers and user identifiers are
  natural numbers here; every identifier of the model is a well-formed ObjectId, so the
  \<^verbatim>\<open>isValidObjectId\<close> guards of routes/trash.js always pass. Dates are milliseconds
  since the epoch. The \<^verbatim>\<open>createdAt\<close>/\<^verbatim>\<open>updatedAt\<close> stamps that the schemas add
  are not read by any route and are left out, as are the image fields
  \<^verbatim>\<open>originalName\<close>, \<^verbatim>\<open>cloudinaryUrl\<close>, \<^verbatim>\<open>size\<close> and \<^verbatim>\<open>mimeType\<close>.
  A stored image document may carry \<^verbatim>\<open>isDeleted\<close> and \<^verbatim>\<open>deletedAt\<close>, and the
  filters of the routes read them; the image document has both fields here, with
  \<open>None\<close> for an absent or null date. models/Image.js declares neither field,
  unlike models/Folder.js, so an update or a save through the image model that sets
  only these two fields writes nothing: the routes never change them.
\<close>

record folder =
  fId :: nat
  fName :: string
  fParentFolder :: "nat option"
  fUser :: nat
  fPath :: string
  fIsDeleted :: bool
  fDeletedAt :: "int option"

record image =
  iId :: nat
  iName :: string
  iCloudinaryPublicId :: string
  iFolder :: nat
  iUser :: nat
  iIsDeleted :: bool
  iDeletedAt :: "int option"

text \<open>A collection is the list of its documents in natural order.\<close>

record db =
  folders :: "folder list"
  images :: "image list"

text \<open>
  What a handler answers. The constructors name the answers of the source:
  \<open>Created\<close> is status 201, \<open>Ok\<close> status 200, \<open>NotFound\<close> status 404,
  \<open>InvalidInput\<close> status 400 for a missing name or an unknown item type,
  \<open>Conflict\<close> status 400 with "A folder with this name already exists in the same
  location", and \<open>ServerError\<close> status 500, sent by the catch-all handler of each
  route. Response bodies are not modelled.
\<close>

datatype response = Created | Ok | InvalidInput | Conflict | NotFound | ServerError

section \<open>Strings\<close>

text \<open>\<^verbatim>\<open>String.prototype.trim\<close>: white space is removed at both ends.\<close>

definition isSpace :: "char \<Rightarrow> bool" where
  "isSpace c = (c \<in> {CHR 0x09, CHR 0x0A, CHR 0x0B, CHR 0x0C, CHR 0x0D, CHR 0x20, CHR 0xA0})"

definition trim :: "string \<Rightarrow> string" where
  "trim s = rev (dropWhile isSpace (rev (dropWhile isSpace s)))"

text \<open>
  \<^verbatim>\<open>str.replace(pattern, replacement)\<close> with two strings: the first occurrence of
  \<open>pattern\<close> is replaced, and in \<open>replacement\<close> the sequences \<^verbatim>\<open>$$\<close>, \<^verbatim>\<open>$&\<close>,
  \<^verbatim>\<open>$`\<close> and \<^verbatim>\<open>$'\<close> stand for a dollar sign, the matched text, the text before
  the match and the text after it (there are no capture groups, so every other
  use of \<^verbatim>\<open>$\<close> is literal).
\<close>

fun splitAtFirst :: "string \<Rightarrow> string \<Rightarrow> (string \<times> string) option" where
  "splitAtFirst pat [] = (if pat = [] then Some ([], []) else None)"
| "splitAtFirst pat (c # cs) =
     (if prefix pat (c # cs) then Some ([], drop (length pat) (c # cs))
      else map_option (\<lambda>(front, back). (c # front, back)) (splitAtFirst pat cs))"

fun getSubstitution :: "string \<Rightarrow> string \<Rightarrow> string \<Rightarrow> string \<Rightarrow> string" where
  "getSubstitution matched front back (c # d # rest) =
     (if c = CHR ''$'' \<and> d = CHR ''$'' then CHR ''$'' # getSubstitution matched front back rest
      else if c = CHR ''$'' \<and> d = CHR ''&'' then matched @ getSubstitution matched front back rest
      else if c = CHR ''$'' \<and> d = CHR 0x60 then front @ getSubstitution matched front back rest
      else if c = CHR ''$'' \<and> d = CHR 0x27 then back @ getSubstitution matched front back rest
      else c # getSubstitution matched front back (d # rest))"
| "getSubstitution matched front back template = template"

definition replace :: "string \<Rightarrow> string \<Rightarrow> string \<Rightarrow> string" where
  "replace str pat replacement =
     (case splitAtFirst pat str of
        None \<Rightarrow> str
      | Some (front, back) \<Rightarrow> front @ getSubstitution pat front back replacement @ back)"

section \<open>Queries\<close>

text \<open>\<^verbatim>\<open>Model.findOne(filter)\<close>: the first document that passes the filter.\<close>

definition findOne :: "('a \<Rightarrow> bool) \<Rightarrow> 'a list \<Rightarrow> 'a option" where
  "findOne p xs = List.find p xs"

text \<open>
  \<^verbatim>\<open>findOneAndUpdate\<close> and \<^verbatim>\<open>doc.save()\<close> change the first document that passes
  the filter; \<^verbatim>\<open>deleteOne\<close> removes it.
\<close>

fun updateFirst :: "('a \<Rightarrow> bool) \<Rightarrow> ('a \<Rightarrow> 'a) \<Rightarrow> 'a list \<Rightarrow> 'a list" where
  "updateFirst p g [] = []"
| "updateFirst p g (x # xs) = (if p x then g x # xs else x # updateFirst p g xs)"

fun deleteOne :: "('a \<Rightarrow> bool) \<Rightarrow> 'a list \<Rightarrow> 'a list" where
  "deleteOne p [] = []"
| "deleteOne p (x # xs) = (if p x then xs else x # deleteOne p xs)"

definition saveFolder :: "folder \<Rightarrow> folder list \<Rightarrow> folder list" where
  "saveFolder f fs = updateFirst (\<lambda>g. fId g = fId f) (\<lambda>_. f) fs"

text \<open>
  \<^verbatim>\<open>Folder.find({ user, path: { $regex: source } })\<close>. The database compiles the
  expression and tests every path with it. An engine says, for the source of an
  expression, which subjects it matches (\<open>Returns\<close>) or that it does not compile,
  in which case the query throws (\<open>Throws\<close>). The handlers below take the engine as
  a parameter, and have an answer for each of the two. \<open>Unmodelled\<close> is the third
  value, of an engine that is known in part only; a handler has no value then.
\<close>

datatype 'a outcome = Returns 'a | Throws | Unmodelled

type_synonym regexEngine = "string \<Rightarrow> (string \<Rightarrow> bool) outcome"

definition findByPathRegex ::
  "regexEngine \<Rightarrow> nat \<Rightarrow> string \<Rightarrow> folder list \<Rightarrow> folder list outcome" where
  "findByPathRegex engine userId source fs =
     (case engine source of
        Returns test \<Rightarrow> Returns (filter (\<lambda>f. fUser f = userId \<and> test (fPath f)) fs)
      | Throws \<Rightarrow> Throws
      | Unmodelled \<Rightarrow> Unmodelled)"

text \<open>
  The engine of the database, as far as it is modelled. The routes build \<open>source\<close>
  as \<^verbatim>\<open>^\<close> followed by a stored path, which is not escaped, so the characters of
  the path are read as regular-expression syntax. \<open>pcre\<close> knows the expressions
  made of ordinary characters, the dot (any character but a line feed) and the two
  assertions \<^verbatim>\<open>^\<close> (start of the subject) and \<^verbatim>\<open>$\<close> (end of the subject, or
  before a line feed that ends it); such an expression matches when it matches from
  some offset of the subject. It also knows that an expression does not compile when
  it has an opening parenthesis and no closing one, or a closing one and no opening
  one, and neither a backslash nor a bracket that could make the parenthesis an
  ordinary character. Every other expression is \<open>Unmodelled\<close>.
\<close>

datatype atom = Lit char | AnyChar | Bol | Eol

definition regexMeta :: "char \<Rightarrow> bool" where
  "regexMeta c = (c \<in> {CHR 0x5C, CHR ''^'', CHR ''$'', CHR ''.'', CHR ''|'', CHR ''?'', CHR ''*'',
     CHR ''+'', CHR ''('', CHR '')'', CHR ''['', CHR '']'', CHR ''{'', CHR ''}''})"

definition parseRegex :: "string \<Rightarrow> atom list option" where
  "parseRegex source =
     (if list_ex (\<lambda>c. regexMeta c \<and> c \<noteq> CHR ''^'' \<and> c \<noteq> CHR ''$'' \<and> c \<noteq> CHR ''.'') source
      then None
      else Some (map (\<lambda>c. if c = CHR ''^'' then Bol else if c = CHR ''$'' then Eol
                          else if c = CHR ''.'' then AnyChar else Lit c)
                   source))"

fun matchHere :: "atom list \<Rightarrow> bool \<Rightarrow> string \<Rightarrow> bool" where
  "matchHere [] atStart subject = True"
| "matchHere (Lit c # atoms) atStart subject =
     (case subject of [] \<Rightarrow> False | x # rest \<Rightarrow> x = c \<and> matchHere atoms False rest)"
| "matchHere (AnyChar # atoms) atStart subject =
     (case subject of [] \<Rightarrow> False | x # rest \<Rightarrow> x \<noteq> CHR 0x0A \<and> matchHere atoms False rest)"
| "matchHere (Bol # atoms) atStart subject = (atStart \<and> matchHere atoms atStart subject)"
| "matchHere (Eol # atoms) atStart subject =
     ((subject = [] \<or> subject = [CHR 0x0A]) \<and> matchHere atoms atStart subject)"

fun searchFrom :: "atom list \<Rightarrow> bool \<Rightarrow> string \<Rightarrow> bool" where
  "searchFrom atoms atStart [] = matchHere atoms atStart []"
| "searchFrom atoms atStart (x # rest) =
     (matchHere atoms atStart (x # rest) \<or> searchFrom atoms False rest)"

definition regexTest :: "atom list \<Rightarrow> string \<Rightarrow> bool" where
  "regexTest atoms subject = searchFrom atoms True subject"

definition unbalanced :: "string \<Rightarrow> bool" where
  "unbalanced source =
     (\<not> list_ex (\<lambda>c. c = CHR 0x5C \<or> c = CHR ''['') source
      \<and> list_ex (\<lambda>c. c = CHR ''('') source \<noteq> list_ex (\<lambda>c. c = CHR '')'') source)"

definition pcre :: regexEngine where
  "pcre source =
     (if unbalanced source then Throws
      else (case parseRegex source of
              None \<Rightarrow> Unmodelled
            | Some atoms \<Rightarrow> Returns (regexTest atoms)))"

section \<open>The object store\<close>

text \<open>
  \<^verbatim>\<open>cloudinary.uploader.destroy(publicId)\<close> is a collaborator: \<open>destroy p\<close> is
  \<open>True\<close> when the call for \<open>p\<close> resolves and \<open>False\<close> when it throws. Each loop
  returns the calls it made, in order: the public identifier and whether the call
  resolved.

  routes/folders.js wraps every call in its own \<^verbatim>\<open>try\<close>/\<^verbatim>\<open>catch\<close>, which logs
  the failure and goes on to the next image. routes/trash.js does not: the first call
  that throws leaves the loop, and the second component of \<open>destroyEach\<close> says
  whether the loop ran to its end.
\<close>

type_synonym destroyLog = "(string \<times> bool) list"

fun destroyEachCaught :: "(string \<Rightarrow> bool) \<Rightarrow> image list \<Rightarrow> destroyLog" where
  "destroyEachCaught destroy [] = []"
| "destroyEachCaught destroy (img # imgs) =
     (if iCloudinaryPublicId img \<noteq> []
      then (iCloudinaryPublicId img, destroy (iCloudinaryPublicId img))
             # destroyEachCaught destroy imgs
      else destroyEachCaught destroy imgs)"

fun destroyEach :: "(string \<Rightarrow> bool) \<Rightarrow> image list \<Rightarrow> destroyLog \<times> bool" where
  "destroyEach destroy [] = ([], True)"
| "destroyEach destroy (img # imgs) =
     (if iCloudinaryPublicId img \<noteq> []
      then (if destroy (iCloudinaryPublicId img)
            then (case destroyEach destroy imgs of
                    (calls, finished) \<Rightarrow> ((iCloudinaryPublicId img, True) # calls, finished))
            else ([(iCloudinaryPublicId img, False)], False))
      else destroyEach destroy imgs)"

section \<open>routes/folders.js\<close>

text \<open>
  \<^verbatim>\<open>folder.save()\<close> is refused by the database when another document has the same
  \<^verbatim>\<open>_id\<close>, or the same user, parent folder and name (the unique index of
  models/Folder.js, which does not look at \<^verbatim>\<open>isDeleted\<close>). The route's catch-all
  handler turns the refusal into status 500.
\<close>

definition indexClash :: "folder \<Rightarrow> folder list \<Rightarrow> bool" where
  "indexClash f fs =
     list_ex (\<lambda>g. fId g \<noteq> fId f \<and> fUser g = fUser f \<and> fParentFolder g = fParentFolder f
                  \<and> fName g = fName f) fs"

text \<open>
  \<^verbatim>\<open>POST /\<close>. \<open>newId\<close> is the identifier generated for the new document.
\<close>

definition createFolder :: "nat \<Rightarrow> db \<Rightarrow> nat \<Rightarrow> string \<Rightarrow> nat option \<Rightarrow> response \<times> db" where
  "createFolder newId d userId name parentFolderId =
     (if trim name = [] then (InvalidInput, d)
      else
        (case (case parentFolderId of
                 None \<Rightarrow> Some (trim name)
               | Some pid \<Rightarrow>
                   (case findOne (\<lambda>f. fId f = pid \<and> fUser f = userId) (folders d) of
                      None \<Rightarrow> None
                    | Some parentFolder \<Rightarrow> Some (fPath parentFolder @ ''/'' @ trim name))) of
           None \<Rightarrow> (NotFound, d)
         | Some path \<Rightarrow>
             (let folder = \<lparr> fId = newId, fName = trim name, fParentFolder = parentFolderId,
                             fUser = userId, fPath = path, fIsDeleted = False,
                             fDeletedAt = None \<rparr>
              in if list_ex (\<lambda>g. fId g = newId) (folders d) \<or> indexClash folder (folders d)
                 then (ServerError, d)
                 else (Created, d\<lparr>folders := folders d @ [folder]\<rparr>))))"

text \<open>
  \<^verbatim>\<open>DELETE /soft/:folderId\<close>. \<open>now\<close> is the value of \<^verbatim>\<open>new Date()\<close> in the
  folder update. The image update that follows sets only \<^verbatim>\<open>isDeleted\<close> and
  \<^verbatim>\<open>deletedAt\<close>, which the image schema does not declare: the images stay as
  they are. A query that throws is caught by the route's catch-all handler.
\<close>

definition softDeleteOn ::
  "regexEngine \<Rightarrow> int \<Rightarrow> db \<Rightarrow> nat \<Rightarrow> nat \<Rightarrow> (response \<times> db) option" where
  "softDeleteOn engine now d userId folderId =
     (case findOne (\<lambda>f. fId f = folderId \<and> fUser f = userId) (folders d) of
        None \<Rightarrow> Some (NotFound, d)
      | Some folder \<Rightarrow>
          (case findByPathRegex engine userId (''^'' @ fPath folder) (folders d) of
             Unmodelled \<Rightarrow> None
           | Throws \<Rightarrow> Some (ServerError, d)
           | Returns foldersToDelete \<Rightarrow>
               (let folderIds = map fId foldersToDelete
                in Some (Ok,
                     d\<lparr>folders := map (\<lambda>f. if fId f \<in> set folderIds
                                           then f\<lparr>fIsDeleted := True, fDeletedAt := Some now\<rparr>
                                           else f) (folders d)\<rparr>))))"

definition softDelete :: "int \<Rightarrow> db \<Rightarrow> nat \<Rightarrow> nat \<Rightarrow> (response \<times> db) option" where
  "softDelete = softDeleteOn pcre"

text \<open>
  \<^verbatim>\<open>DELETE /hard/:folderId\<close>. The third component is the log of the
  \<^verbatim>\<open>destroy\<close> calls issued.
\<close>

definition hardDeleteOn ::
  "regexEngine \<Rightarrow> (string \<Rightarrow> bool) \<Rightarrow> db \<Rightarrow> nat \<Rightarrow> nat
     \<Rightarrow> (response \<times> db \<times> destroyLog) option" where
  "hardDeleteOn engine destroy d userId folderId =
     (case findOne (\<lambda>f. fId f = folderId \<and> fUser f = userId) (folders d) of
        None \<Rightarrow> Some (NotFound, d, [])
      | Some folder \<Rightarrow>
          (case findByPathRegex engine userId (''^'' @ fPath folder) (folders d) of
             Unmodelled \<Rightarrow> None
           | Throws \<Rightarrow> Some (ServerError, d, [])
           | Returns foldersToDelete \<Rightarrow>
               (let folderIds = map fId foldersToDelete;
                    imagesToDelete = filter (\<lambda>i. iFolder i \<in> set folderIds) (images d);
                    calls = destroyEachCaught destroy imagesToDelete
                in Some (Ok,
                     d\<lparr>images := filter (\<lambda>i. iFolder i \<notin> set folderIds) (images d),
                       folders := filter (\<lambda>f. fId f \<notin> set folderIds) (folders d)\<rparr>,
                     calls))))"

definition hardDelete ::
  "(string \<Rightarrow> bool) \<Rightarrow> db \<Rightarrow> nat \<Rightarrow> nat \<Rightarrow> (response \<times> db \<times> destroyLog) option" where
  "hardDelete = hardDeleteOn pcre"

text \<open>
  \<^verbatim>\<open>PUT /:folderId\<close>. The folder is saved under its new name and path first; the
  subfolders are then read from the collection as saved, and each is saved with the
  old path replaced in its own. When the query for the subfolders throws, the folder
  has been saved already.
\<close>

definition renameFolderOn ::
  "regexEngine \<Rightarrow> db \<Rightarrow> nat \<Rightarrow> nat \<Rightarrow> string \<Rightarrow> (response \<times> db) option" where
  "renameFolderOn engine d userId folderId name =
     (if trim name = [] then Some (InvalidInput, d)
      else
        (case findOne (\<lambda>f. fId f = folderId \<and> fUser f = userId \<and> \<not> fIsDeleted f) (folders d) of
           None \<Rightarrow> Some (NotFound, d)
         | Some folder \<Rightarrow>
             (case findOne (\<lambda>g. fId g \<noteq> folderId \<and> fParentFolder g = fParentFolder folder
                                 \<and> fUser g = userId \<and> fName g = trim name \<and> \<not> fIsDeleted g)
                     (folders d) of
                Some duplicate \<Rightarrow> Some (Conflict, d)
              | None \<Rightarrow>
                  (let oldPath = fPath folder
                   in case (case fParentFolder folder of
                              None \<Rightarrow> Some (trim name)
                            | Some pid \<Rightarrow>
                                map_option (\<lambda>parent. fPath parent @ ''/'' @ trim name)
                                  (findOne (\<lambda>g. fId g = pid) (folders d))) of
                        None \<Rightarrow> Some (ServerError, d)
                      | Some newPath \<Rightarrow>
                          (let renamed = folder\<lparr>fName := trim name, fPath := newPath\<rparr>
                           in if indexClash renamed (folders d) then Some (ServerError, d)
                              else
                                (let saved = saveFolder renamed (folders d)
                                 in case findByPathRegex engine userId (''^'' @ oldPath @ ''/'')
                                           saved of
                                      Unmodelled \<Rightarrow> None
                                    | Throws \<Rightarrow> Some (ServerError, d\<lparr>folders := saved\<rparr>)
                                    | Returns subfolders \<Rightarrow>
                                        Some (Ok,
                                          d\<lparr>folders :=
                                              fold (\<lambda>sub. saveFolder
                                                      (sub\<lparr>fPath := replace (fPath sub) oldPath newPath\<rparr>))
                                                subfolders saved\<rparr>)))))))"

definition renameFolder :: "db \<Rightarrow> nat \<Rightarrow> nat \<Rightarrow> string \<Rightarrow> (response \<times> db) option" where
  "renameFolder = renameFolderOn pcre"

section \<open>routes/trash.js\<close>

text \<open>The \<^verbatim>\<open>:type\<close> parameter after \<^verbatim>\<open>trim().toLowerCase()\<close>.\<close>

datatype itemType = FolderItem | ImageItem | OtherItem

text \<open>
  \<^verbatim>\<open>POST /restore/:type/:id\<close>. The folder is updated by \<^verbatim>\<open>findOneAndUpdate\<close>.
  The image updates of both branches set only \<^verbatim>\<open>isDeleted\<close> and \<^verbatim>\<open>deletedAt\<close>,
  which the image schema does not declare: the filter selects, and nothing is written.
\<close>

definition restoreItem :: "db \<Rightarrow> nat \<Rightarrow> itemType \<Rightarrow> nat \<Rightarrow> response \<times> db" where
  "restoreItem d userId type ident =
     (case type of
        FolderItem \<Rightarrow>
          (case findOne (\<lambda>f. fId f = ident \<and> fUser f = userId \<and> fIsDeleted f) (folders d) of
             None \<Rightarrow> (NotFound, d)
           | Some folder \<Rightarrow>
               (Ok,
                d\<lparr>folders := updateFirst (\<lambda>f. fId f = ident \<and> fUser f = userId \<and> fIsDeleted f)
                                (\<lambda>f. f\<lparr>fIsDeleted := False, fDeletedAt := None\<rparr>) (folders d)\<rparr>))
      | ImageItem \<Rightarrow>
          (case findOne (\<lambda>i. iId i = ident \<and> iUser i = userId \<and> iIsDeleted i) (images d) of
             None \<Rightarrow> (NotFound, d)
           | Some img \<Rightarrow> (Ok, d))
      | OtherItem \<Rightarrow> (InvalidInput, d))"

text \<open>
  \<^verbatim>\<open>DELETE /permanent/:type/:id\<close>. A \<^verbatim>\<open>destroy\<close> call that throws is caught by
  the route's catch-all handler only, before any record is removed.
\<close>

definition permanentDelete ::
  "(string \<Rightarrow> bool) \<Rightarrow> db \<Rightarrow> nat \<Rightarrow> itemType \<Rightarrow> nat \<Rightarrow> response \<times> db \<times> destroyLog" where
  "permanentDelete destroy d userId type ident =
     (case type of
        ImageItem \<Rightarrow>
          (case findOne (\<lambda>i. iId i = ident \<and> iUser i = userId \<and> iIsDeleted i) (images d) of
             None \<Rightarrow> (NotFound, d, [])
           | Some img \<Rightarrow>
               (case destroyEach destroy [img] of
                  (calls, finished) \<Rightarrow>
                    if finished
                    then (Ok, d\<lparr>images := deleteOne (\<lambda>i. iId i = ident) (images d)\<rparr>, calls)
                    else (ServerError, d, calls)))
      | FolderItem \<Rightarrow>
          (case findOne (\<lambda>f. fId f = ident \<and> fUser f = userId \<and> fIsDeleted f) (folders d) of
             None \<Rightarrow> (NotFound, d, [])
           | Some folder \<Rightarrow>
               (case destroyEach destroy
                       (filter (\<lambda>i. iFolder i = ident \<and> iUser i = userId) (images d)) of
                  (calls, finished) \<Rightarrow>
                    if finished
                    then (Ok,
                          d\<lparr>images := filter (\<lambda>i. \<not> (iFolder i = ident \<and> iUser i = userId)) (images d),
                            folders := deleteOne (\<lambda>f. fId f = ident) (folders d)\<rparr>,
                          calls)
                    else (ServerError, d, calls)))
      | OtherItem \<Rightarrow> (InvalidInput, d, []))"

text \<open>
  \<^verbatim>\<open>cleanupOldTrash\<close>. \<open>now\<close> is \<^verbatim>\<open>Date.now()\<close>. A \<^verbatim>\<open>destroy\<close> call that
  throws is caught by the function's own catch-all handler, before any record is
  removed. A document without a date does not pass \<^verbatim>\<open>$lt\<close>.
\<close>

definition DAYS_TO_KEEP :: int where
  "DAYS_TO_KEEP = 30"

definition olderThan :: "int \<Rightarrow> int option \<Rightarrow> bool" where
  "olderThan cutoffDate deletedAt = (case deletedAt of None \<Rightarrow> False | Some t \<Rightarrow> t < cutoffDate)"

definition cleanupOldTrash :: "(string \<Rightarrow> bool) \<Rightarrow> int \<Rightarrow> db \<Rightarrow> db \<times> destroyLog" where
  "cleanupOldTrash destroy now d =
     (let cutoffDate = now - DAYS_TO_KEEP * 86400000;
          oldImages = filter (\<lambda>i. iIsDeleted i \<and> olderThan cutoffDate (iDeletedAt i)) (images d);
          oldFolders = filter (\<lambda>f. fIsDeleted f \<and> olderThan cutoffDate (fDeletedAt f)) (folders d)
      in case destroyEach destroy oldImages of
           (calls, finished) \<Rightarrow>
             if finished
             then (d\<lparr>images := filter (\<lambda>i. iId i \<notin> set (map iId oldImages)) (images d),
                     folders := filter (\<lambda>f. fId f \<notin> set (map fId oldFolders)) (folders d)\<rparr>,
                   calls)
             else (d, calls))"

section \<open>The path model of the specification\<close>

text \<open>
  The specification states its properties with two functions on paths. The routes
  have no such functions: they build paths and regular expressions in place. The two
  definitions below follow the specification's wording and serve to state properties
  of the routes.
\<close>

definition computePath :: "string \<Rightarrow> string option \<Rightarrow> string" where
  "computePath name parentPath =
     (case parentPath of None \<Rightarrow> name | Some p \<Rightarrow> p @ ''/'' @ name)"

definition isDescendantPath :: "string \<Rightarrow> string \<Rightarrow> bool" where
  "isDescendantPath candidatePath ancestorPath =
     (candidatePath = ancestorPath \<or> prefix (ancestorPath @ ''/'') candidatePath)"

text \<open>
  A folder's stored path is consistent when it is the path computed from its name and
  the stored path of its parent document; a parent that is not in the collection makes
  it inconsistent.
\<close>

definition pathConsistent :: "folder list \<Rightarrow> folder \<Rightarrow> bool" where
  "pathConsistent fs f =
     (case fParentFolder f of
        None \<Rightarrow> fPath f = computePath (fName f) None
      | Some pid \<Rightarrow>
          (case findOne (\<lambda>g. fId g = pid) fs of
             None \<Rightarrow> False
           | Some parent \<Rightarrow> fPath f = computePath (fName f) (Some (fPath parent))))"

definition pathsConsistent :: "db \<Rightarrow> bool" where
  "pathsConsistent d = list_all (pathConsistent (folders d)) (folders d)"

section \<open>Example stores\<close>

text \<open>
  The stores used to run the handlers on concrete inputs. All documents belong to
  user 7. \<open>fooStore\<close> has two root folders whose names share a prefix;
  \<open>rootStore\<close>, \<open>docsStore\<close> and \<open>dollarStore\<close> are a folder \<open>A\<close>, then with
  a child \<open>Docs\<close>, then after renaming \<open>A\<close>; \<open>treeStore\<close> adds a second root
  folder and three images, one of which carries trash fields. \<open>trashedFolders\<close> is
  \<open>treeStore\<close> with \<open>A\<close> and \<open>Docs\<close> in the trash, and \<open>restoredFolders\<close>
  has \<open>A\<close> out of it again. In \<open>trashedTree\<close> the image documents carry trash
  fields as well, and \<open>purgedTree\<close> is that store without \<open>A\<close> and its images.
  \<open>cashStore\<close> has one folder whose name ends in a dollar sign. \<open>coverFails\<close> is
  an object store whose \<^verbatim>\<open>destroy\<close> throws for one payload.
\<close>

definition fooStore :: db where
  "fooStore =
     \<lparr> folders =
         [\<lparr> fId = 1, fName = ''Foo'', fParentFolder = None, fUser = 7, fPath = ''Foo'',
            fIsDeleted = False, fDeletedAt = None \<rparr>,
          \<lparr> fId = 2, fName = ''Foo2'', fParentFolder = None, fUser = 7, fPath = ''Foo2'',
            fIsDeleted = False, fDeletedAt = None \<rparr>],
       images =
         [\<lparr> iId = 10, iName = ''pic'', iCloudinaryPublicId = ''image-app/pic'', iFolder = 2,
            iUser = 7, iIsDeleted = False, iDeletedAt = None \<rparr>] \<rparr>"

definition rootStore :: db where
  "rootStore =
     \<lparr> folders =
         [\<lparr> fId = 1, fName = ''A'', fParentFolder = None, fUser = 7, fPath = ''A'',
            fIsDeleted = False, fDeletedAt = None \<rparr>],
       images = [] \<rparr>"

definition docsStore :: db where
  "docsStore =
     \<lparr> folders =
         [\<lparr> fId = 1, fName = ''A'', fParentFolder = None, fUser = 7, fPath = ''A'',
            fIsDeleted = False, fDeletedAt = None \<rparr>,
          \<lparr> fId = 2, fName = ''Docs'', fParentFolder = Some 1, fUser = 7, fPath = ''A/Docs'',
            fIsDeleted = False, fDeletedAt = None \<rparr>],
       images = [] \<rparr>"

definition dollarStore :: db where
  "dollarStore =
     \<lparr> folders =
         [\<lparr> fId = 1, fName = ''$$'', fParentFolder = None, fUser = 7, fPath = ''$$'',
            fIsDeleted = False, fDeletedAt = None \<rparr>,
          \<lparr> fId = 2, fName = ''Docs'', fParentFolder = Some 1, fUser = 7, fPath = ''$/Docs'',
            fIsDeleted = False, fDeletedAt = None \<rparr>],
       images = [] \<rparr>"

definition treeStore :: db where
  "treeStore =
     \<lparr> folders =
         [\<lparr> fId = 1, fName = ''A'', fParentFolder = None, fUser = 7, fPath = ''A'',
            fIsDeleted = False, fDeletedAt = None \<rparr>,
          \<lparr> fId = 2, fName = ''Docs'', fParentFolder = Some 1, fUser = 7, fPath = ''A/Docs'',
            fIsDeleted = False, fDeletedAt = None \<rparr>,
          \<lparr> fId = 3, fName = ''B'', fParentFolder = None, fUser = 7, fPath = ''B'',
            fIsDeleted = False, fDeletedAt = None \<rparr>],
       images =
         [\<lparr> iId = 10, iName = ''cover'', iCloudinaryPublicId = ''image-app/cover'', iFolder = 1,
            iUser = 7, iIsDeleted = False, iDeletedAt = None \<rparr>,
          \<lparr> iId = 11, iName = ''old'', iCloudinaryPublicId = ''image-app/old'', iFolder = 1,
            iUser = 7, iIsDeleted = True, iDeletedAt = Some 3 \<rparr>,
          \<lparr> iId = 12, iName = ''scan'', iCloudinaryPublicId = ''image-app/scan'', iFolder = 2,
            iUser = 7, iIsDeleted = False, iDeletedAt = None \<rparr>] \<rparr>"

definition trashedTree :: "int \<Rightarrow> int \<Rightarrow> db" where
  "trashedTree nowF nowI =
     \<lparr> folders =
         [\<lparr> fId = 1, fName = ''A'', fParentFolder = None, fUser = 7, fPath = ''A'',
            fIsDeleted = True, fDeletedAt = Some nowF \<rparr>,
          \<lparr> fId = 2, fName = ''Docs'', fParentFolder = Some 1, fUser = 7, fPath = ''A/Docs'',
            fIsDeleted = True, fDeletedAt = Some nowF \<rparr>,
          \<lparr> fId = 3, fName = ''B'', fParentFolder = None, fUser = 7, fPath = ''B'',
            fIsDeleted = False, fDeletedAt = None \<rparr>],
       images =
         [\<lparr> iId = 10, iName = ''cover'', iCloudinaryPublicId = ''image-app/cover'', iFolder = 1,
            iUser = 7, iIsDeleted = True, iDeletedAt = Some nowI \<rparr>,
          \<lparr> iId = 11, iName = ''old'', iCloudinaryPublicId = ''image-app/old'', iFolder = 1,
            iUser = 7, iIsDeleted = True, iDeletedAt = Some nowI \<rparr>,
          \<lparr> iId = 12, iName = ''scan'', iCloudinaryPublicId = ''image-app/scan'', iFolder = 2,
            iUser = 7, iIsDeleted = True, iDeletedAt = Some nowI \<rparr>] \<rparr>"

definition trashedFolders :: "int \<Rightarrow> db" where
  "trashedFolders now =
     \<lparr> folders =
         [\<lparr> fId = 1, fName = ''A'', fParentFolder = None, fUser = 7, fPath = ''A'',
            fIsDeleted = True, fDeletedAt = Some now \<rparr>,
          \<lparr> fId = 2, fName = ''Docs'', fParentFolder = Some 1, fUser = 7, fPath = ''A/Docs'',
            fIsDeleted = True, fDeletedAt = Some now \<rparr>,
          \<lparr> fId = 3, fName = ''B'', fParentFolder = None, fUser = 7, fPath = ''B'',
            fIsDeleted = False, fDeletedAt = None \<rparr>],
       images =
         [\<lparr> iId = 10, iName = ''cover'', iCloudinaryPublicId = ''image-app/cover'', iFolder = 1,
            iUser = 7, iIsDeleted = False, iDeletedAt = None \<rparr>,
          \<lparr> iId = 11, iName = ''old'', iCloudinaryPublicId = ''image-app/old'', iFolder = 1,
            iUser = 7, iIsDeleted = True, iDeletedAt = Some 3 \<rparr>,
          \<lparr> iId = 12, iName = ''scan'', iCloudinaryPublicId = ''image-app/scan'', iFolder = 2,
            iUser = 7, iIsDeleted = False, iDeletedAt = None \<rparr>] \<rparr>"

definition restoredFolders :: db where
  "restoredFolders =
     \<lparr> folders =
         [\<lparr> fId = 1, fName = ''A'', fParentFolder = None, fUser = 7, fPath = ''A'',
            fIsDeleted = False, fDeletedAt = None \<rparr>,
          \<lparr> fId = 2, fName = ''Docs'', fParentFolder = Some 1, fUser = 7, fPath = ''A/Docs'',
            fIsDeleted = True, fDeletedAt = Some 5 \<rparr>,
          \<lparr> fId = 3, fName = ''B'', fParentFolder = None, fUser = 7, fPath = ''B'',
            fIsDeleted = False, fDeletedAt = None \<rparr>],
       images =
         [\<lparr> iId = 10, iName = ''cover'', iCloudinaryPublicId = ''image-app/cover'', iFolder = 1,
            iUser = 7, iIsDeleted = False, iDeletedAt = None \<rparr>,
          \<lparr> iId = 11, iName = ''old'', iCloudinaryPublicId = ''image-app/old'', iFolder = 1,
            iUser = 7, iIsDeleted = True, iDeletedAt = Some 3 \<rparr>,
          \<lparr> iId = 12, iName = ''scan'', iCloudinaryPublicId = ''image-app/scan'', iFolder = 2,
            iUser = 7, iIsDeleted = False, iDeletedAt = None \<rparr>] \<rparr>"

definition purgedTree :: db where
  "purgedTree =
     \<lparr> folders =
         [\<lparr> fId = 2, fName = ''Docs'', fParentFolder = Some 1, fUser = 7, fPath = ''A/Docs'',
            fIsDeleted = True, fDeletedAt = Some 5 \<rparr>,
          \<lparr> fId = 3, fName = ''B'', fParentFolder = None, fUser = 7, fPath = ''B'',
            fIsDeleted = False, fDeletedAt = None \<rparr>],
       images =
         [\<lparr> iId = 12, iName = ''scan'', iCloudinaryPublicId = ''image-app/scan'', iFolder = 2,
            iUser = 7, iIsDeleted = True, iDeletedAt = Some 6 \<rparr>] \<rparr>"

definition cashStore :: db where
  "cashStore =
     \<lparr> folders =
         [\<lparr> fId = 1, fName = ''Cash$'', fParentFolder = None, fUser = 7, fPath = ''Cash$'',
            fIsDeleted = False, fDeletedAt = None \<rparr>],
       images =
         [\<lparr> iId = 10, iName = ''bill'', iCloudinaryPublicId = ''image-app/bill'', iFolder = 1,
            iUser = 7, iIsDeleted = False, iDeletedAt = None \<rparr>] \<rparr>"

definition coverFails :: "string \<Rightarrow> bool" where
  "coverFails publicId = (publicId \<noteq> ''image-app/cover'')"

lemmas store_defs = fooStore_def rootStore_def docsStore_def dollarStore_def treeStore_def
  trashedTree_def trashedFolders_def restoredFolders_def purgedTree_def cashStore_def
  coverFails_def

lemmas query_defs = findOne_def findByPathRegex_def pcre_def unbalanced_def parseRegex_def
  regexTest_def regexMeta_def

lemmas handler_defs = softDelete_def softDeleteOn_def hardDelete_def hardDeleteOn_def
  renameFolder_def renameFolderOn_def

section \<open>Auxiliary facts\<close>

subsection \<open>Regular expressions built from a path without metacharacters\<close>

lemma matchHere_literal:
  "matchHere (map Lit p) atStart s = prefix p s"
proof (induction p arbitrary: atStart s)
  case Nil
  then show ?case by simp
next
  case (Cons c p)
  then show ?case by (cases s) auto
qed

lemma searchFrom_Bol_later: "searchFrom (Bol # atoms) False s = False"
  by (induction s) simp_all

lemma regexTest_anchored_literal:
  "regexTest (Bol # map Lit p) s = prefix p s"
  by (cases s) (simp_all add: regexTest_def matchHere_literal searchFrom_Bol_later)

lemma parseRegex_caret_literal:
  "\<not> list_ex regexMeta p \<Longrightarrow> parseRegex (CHR ''^'' # p) = Some (Bol # map Lit p)"
  by (auto simp: parseRegex_def list_ex_iff regexMeta_def)

lemma pcre_caret_literal:
  "\<not> list_ex regexMeta p \<Longrightarrow> pcre (CHR ''^'' # p) = Returns (regexTest (Bol # map Lit p))"
  by (auto simp: pcre_def unbalanced_def parseRegex_caret_literal list_ex_iff regexMeta_def)

lemma findByPathRegex_caret:
  "\<not> list_ex regexMeta p \<Longrightarrow>
     findByPathRegex pcre u (CHR ''^'' # p) fs
       = Returns (filter (\<lambda>f. fUser f = u \<and> prefix p (fPath f)) fs)"
  by (simp add: findByPathRegex_def pcre_caret_literal regexTest_anchored_literal)

subsection \<open>Queries and updates\<close>


lemma findOne_Some_mem: "findOne p xs = Some x \<Longrightarrow> x \<in> set xs \<and> p x"
  by (induction xs) (auto simp: findOne_def split: if_splits)

lemma findOne_None_iff: "findOne p xs = None \<longleftrightarrow> \<not> (\<exists>x \<in> set xs. p x)"
  by (auto simp: findOne_def find_None_iff)

lemma findOne_map_filter:
  "(\<And>x. q (h x) = p x) \<Longrightarrow> findOne q (map h xs) = map_option h (findOne p xs)"
  by (induction xs) (simp_all add: findOne_def)

lemma findOne_updateFirst_map:
  assumes "\<And>x. q (h x) = p x" "\<And>x. p (h x) = p x" "\<And>y. p (g y) = p y"
  shows "findOne p (updateFirst q g (map h xs)) = map_option (\<lambda>x. g (h x)) (findOne p xs)"
  using assms by (induction xs) (simp_all add: findOne_def)

lemma updateFirst_nth:
  "findOne p xs = Some x \<Longrightarrow>
     \<exists>k<length xs. xs ! k = x \<and> p x \<and> (\<forall>j<k. \<not> p (xs ! j)) \<and> updateFirst p g xs = xs[k := g x]"
proof (induction xs)
  case Nil
  then show ?case by (simp add: findOne_def)
next
  case (Cons y ys)
  show ?case
  proof (cases "p y")
    case True
    with Cons.prems have "x = y" by (simp add: findOne_def)
    with True show ?thesis by (intro exI [of _ 0]) simp
  next
    case False
    with Cons.prems have "findOne p ys = Some x" by (simp add: findOne_def)
    from Cons.IH [OF this] obtain k where k: "k < length ys" "ys ! k = x" "p x"
      "\<forall>j<k. \<not> p (ys ! j)" "updateFirst p g ys = ys[k := g x]" by blast
    have "\<forall>j<Suc k. \<not> p ((y # ys) ! j)"
      using False k(4) by (auto simp: less_Suc_eq_0_disj)
    with k False show ?thesis by (intro exI [of _ "Suc k"]) simp
  qed
qed

lemma deleteOne_others: "filter (\<lambda>x. \<not> p x) (deleteOne p xs) = filter (\<lambda>x. \<not> p x) xs"
  by (induction xs) simp_all

lemma deleteOne_distinct:
  "distinct (map f xs) \<Longrightarrow> \<forall>y \<in> set (deleteOne (\<lambda>x. f x = a) xs). f y \<noteq> a"
  by (induction xs) (auto simp: image_iff)

lemma findOne_append_found:
  "findOne p xs = Some x \<Longrightarrow> findOne p (xs @ ys) = Some x"
  by (induction xs) (auto simp: findOne_def split: if_splits)

lemma findOne_unique_id:
  assumes "distinct (map fId fs)" "findOne p fs = Some x" "findOne q fs = Some y" "fId x = fId y"
  shows "x = y"
proof -
  from assms(2,3) have "x \<in> set fs" "y \<in> set fs" by (auto dest: findOne_Some_mem)
  with assms(1,4) show ?thesis by (meson distinct_map inj_onD)
qed

lemma updateFirst_distinct:
  "distinct (map f xs) \<Longrightarrow>
     updateFirst (\<lambda>x. f x = a) (\<lambda>_. y) xs = map (\<lambda>x. if f x = a then y else x) xs"
proof (induction xs)
  case Nil
  then show ?case by simp
next
  case (Cons x xs)
  show ?case
  proof (cases "f x = a")
    case True
    with Cons.prems have "\<forall>z \<in> set xs. f z \<noteq> a" by (auto simp: image_iff)
    then have "map (\<lambda>x. if f x = a then y else x) xs = xs" by (simp add: map_idI)
    with True show ?thesis by simp
  next
    case False
    with Cons show ?thesis by simp
  qed
qed

lemma saveFolder_distinct:
  "distinct (map fId fs) \<Longrightarrow> saveFolder f fs = map (\<lambda>g. if fId g = fId f then f else g) fs"
  by (simp add: saveFolder_def updateFirst_distinct)

lemma fold_saveFolder:
  assumes upd: "\<And>x. fId (upd x) = fId x"
  shows "distinct (map fId fs) \<Longrightarrow> distinct (map fId subs) \<Longrightarrow>
     fold (\<lambda>sub. saveFolder (upd sub)) subs fs
       = map (\<lambda>g. case List.find (\<lambda>s. fId s = fId g) subs of None \<Rightarrow> g | Some s \<Rightarrow> upd s) fs"
proof (induction subs arbitrary: fs)
  case Nil
  then show ?case by simp
next
  case (Cons s subs)
  let ?fs' = "map (\<lambda>g. if fId g = fId s then upd s else g) fs"
  have step: "saveFolder (upd s) fs = ?fs'"
    using Cons.prems(1) by (simp add: saveFolder_distinct upd)
  have ids: "map fId ?fs' = map fId fs" by (simp add: upd)
  have d': "distinct (map fId ?fs')" unfolding ids by (rule Cons.prems(1))
  from Cons.prems(2) have ds: "distinct (map fId subs)" and fresh: "\<forall>t \<in> set subs. fId t \<noteq> fId s"
    by (auto simp: image_iff)
  from fresh have none: "List.find (\<lambda>t. fId t = fId s) subs = None"
    by (simp add: find_None_iff)
  have "fold (\<lambda>sub. saveFolder (upd sub)) (s # subs) fs
          = fold (\<lambda>sub. saveFolder (upd sub)) subs ?fs'"
    by (simp add: step)
  also have "\<dots> = map (\<lambda>g. case List.find (\<lambda>t. fId t = fId g) subs of None \<Rightarrow> g | Some t \<Rightarrow> upd t) ?fs'"
    by (rule Cons.IH [OF d' ds])
  also have "\<dots> = map (\<lambda>g. case List.find (\<lambda>t. fId t = fId g) (s # subs) of None \<Rightarrow> g | Some t \<Rightarrow> upd t) fs"
    by (auto simp: upd none)
  finally show ?case .
qed

lemma find_in_filter_distinct:
  assumes "distinct (map f xs)" "g \<in> set xs"
  shows "List.find (\<lambda>s. f s = f g) (filter P xs) = (if P g then Some g else None)"
  using assms
proof (induction xs)
  case Nil
  then show ?case by simp
next
  case (Cons x xs)
  show ?case
  proof (cases "g = x")
    case True
    with Cons.prems(1) have "\<forall>z \<in> set xs. f z \<noteq> f g" by (auto simp: image_iff)
    then have "List.find (\<lambda>s. f s = f g) (filter P xs) = None"
      by (simp add: find_None_iff)
    with True show ?thesis by simp
  next
    case False
    with Cons.prems have "g \<in> set xs" "f x \<noteq> f g" by (auto simp: image_iff)
    with Cons show ?thesis by simp
  qed
qed

subsection \<open>String replacement\<close>

lemma getSubstitution_plain:
  "CHR ''$'' \<notin> set t \<Longrightarrow> getSubstitution m pre post t = t"
  by (induction m pre post t rule: getSubstitution.induct) auto

lemma splitAtFirst_prefix:
  "prefix pat s \<Longrightarrow> splitAtFirst pat s = Some ([], drop (length pat) s)"
  by (cases s) simp_all

lemma replace_leading:
  assumes "prefix pat s" "CHR ''$'' \<notin> set replacement"
  shows "replace s pat replacement = replacement @ drop (length pat) s"
  using assms by (simp add: replace_def splitAtFirst_prefix getSubstitution_plain)

subsection \<open>The destroy loops\<close>

lemma destroyEachCaught_map:
  "destroyEachCaught destroy imgs =
     map (\<lambda>i. (iCloudinaryPublicId i, destroy (iCloudinaryPublicId i)))
       (filter (\<lambda>i. iCloudinaryPublicId i \<noteq> []) imgs)"
  by (induction imgs) simp_all

lemma destroyEach_finished:
  "(\<forall>i \<in> set imgs. iCloudinaryPublicId i \<noteq> [] \<longrightarrow> destroy (iCloudinaryPublicId i))
     \<Longrightarrow> snd (destroyEach destroy imgs)"
  by (induction imgs) (auto split: prod.splits)

subsection \<open>The handlers, case by case\<close>





lemma hardDelete_found:
  assumes "findOne (\<lambda>f. fId f = fid \<and> fUser f = u) (folders d) = Some F"
    and "\<not> list_ex regexMeta (fPath F)"
  shows "hardDelete destroy d u fid =
     Some (Ok,
       d\<lparr>images := filter (\<lambda>i. iFolder i \<notin> fId ` {g \<in> set (folders d). fUser g = u \<and> prefix (fPath F) (fPath g)}) (images d),
         folders := filter (\<lambda>f. fId f \<notin> fId ` {g \<in> set (folders d). fUser g = u \<and> prefix (fPath F) (fPath g)}) (folders d)\<rparr>,
       destroyEachCaught destroy
         (filter (\<lambda>i. iFolder i \<in> fId ` {g \<in> set (folders d). fUser g = u \<and> prefix (fPath F) (fPath g)}) (images d)))"
  using assms by (simp add: hardDelete_def hardDeleteOn_def findByPathRegex_caret Let_def)

lemma hardDelete_NotFound_iff:
  "(\<exists>d' calls. hardDelete destroy d u fid = Some (NotFound, d', calls))
     \<longleftrightarrow> \<not> (\<exists>f \<in> set (folders d). fId f = fid \<and> fUser f = u)"
proof (cases "findOne (\<lambda>f. fId f = fid \<and> fUser f = u) (folders d)")
  case None
  then have "hardDelete destroy d u fid = Some (NotFound, d, [])"
    by (simp add: hardDelete_def hardDeleteOn_def)
  moreover from None have "\<not> (\<exists>f \<in> set (folders d). fId f = fid \<and> fUser f = u)"
    by (simp add: findOne_None_iff)
  ultimately show ?thesis by simp
next
  case (Some F)
  then have "\<exists>f \<in> set (folders d). fId f = fid \<and> fUser f = u"
    by (auto dest: findOne_Some_mem)
  moreover from Some have "\<And>d' calls. hardDelete destroy d u fid \<noteq> Some (NotFound, d', calls)"
    by (simp add: hardDelete_def hardDeleteOn_def Let_def split: outcome.splits)
  ultimately show ?thesis by simp
qed

lemma descendant_is_prefixed: "isDescendantPath c a \<Longrightarrow> prefix a c"
  by (auto simp: isDescendantPath_def prefix_def)

lemma restoreItem_folder_NotFound:
  "findOne (\<lambda>f. fId f = fid \<and> fUser f = u \<and> fIsDeleted f) (folders d) = None \<Longrightarrow>
     restoreItem d u FolderItem fid = (NotFound, d)"
  by (simp add: restoreItem_def)

lemma restoreItem_folder_Ok:
  "findOne (\<lambda>f. fId f = fid \<and> fUser f = u \<and> fIsDeleted f) (folders d) = Some F \<Longrightarrow>
     restoreItem d u FolderItem fid =
       (Ok, d\<lparr>folders := updateFirst (\<lambda>f. fId f = fid \<and> fUser f = u \<and> fIsDeleted f)
                            (\<lambda>f. f\<lparr>fIsDeleted := False, fDeletedAt := None\<rparr>) (folders d)\<rparr>)"
  by (simp add: restoreItem_def)

lemma permanentDelete_folder_cases:
  assumes "permanentDelete destroy d u FolderItem fid = (r, d', calls)"
  shows "(r \<noteq> Ok \<and> d' = d)
       \<or> (r = Ok
          \<and> snd (destroyEach destroy (filter (\<lambda>i. iFolder i = fid \<and> iUser i = u) (images d)))
          \<and> (\<exists>F. findOne (\<lambda>f. fId f = fid \<and> fUser f = u \<and> fIsDeleted f) (folders d) = Some F)
          \<and> folders d' = deleteOne (\<lambda>f. fId f = fid) (folders d)
          \<and> images d' = filter (\<lambda>i. \<not> (iFolder i = fid \<and> iUser i = u)) (images d))"
  using assms
  by (auto simp: permanentDelete_def split: option.splits prod.splits if_splits)

lemma pathConsistent_append:
  "pathConsistent fs g \<Longrightarrow> pathConsistent (fs @ [f]) g"
  by (auto simp: pathConsistent_def findOne_append_found split: option.splits)




section \<open>C1: the subtree taken by the delete routes\<close>

text \<open>
  C1. The claim: soft delete and hard delete of a folder touch exactly the owner's
  folders whose path is the folder's path or continues it after the separator
  \<^verbatim>\<open>/\<close>, so a folder \<open>Foo2\<close> is left alone when \<open>Foo\<close> is deleted. Both routes
  search with the expression \<^verbatim>\<open>^\<close> followed by the bare path, without the
  separator that the rename route puts after it. \<open>Foo2\<close> is not a descendant path
  of \<open>Foo\<close>, and yet soft delete of \<open>Foo\<close> marks the folder \<open>Foo2\<close> deleted (the
  image in it stays as it is), and hard delete of \<open>Foo\<close> removes the records of
  \<open>Foo2\<close> and of its image and destroys the image's payload.
\<close>

theorem delete_routes_take_prefix_sibling:
  "\<not> isDescendantPath ''Foo2'' ''Foo''
   \<and> softDelete 5 fooStore 7 1 =
       Some (Ok,
         \<lparr> folders =
             [\<lparr> fId = 1, fName = ''Foo'', fParentFolder = None, fUser = 7, fPath = ''Foo'',
                fIsDeleted = True, fDeletedAt = Some 5 \<rparr>,
              \<lparr> fId = 2, fName = ''Foo2'', fParentFolder = None, fUser = 7, fPath = ''Foo2'',
                fIsDeleted = True, fDeletedAt = Some 5 \<rparr>],
           images =
             [\<lparr> iId = 10, iName = ''pic'', iCloudinaryPublicId = ''image-app/pic'',
                iFolder = 2, iUser = 7, iIsDeleted = False, iDeletedAt = None \<rparr>] \<rparr>)
   \<and> hardDelete (\<lambda>p. True) fooStore 7 1 =
       Some (Ok, \<lparr> folders = [], images = [] \<rparr>, [(''image-app/pic'', True)])"
  by (simp add: isDescendantPath_def handler_defs store_defs query_defs)

section \<open>C2: stored paths after create and rename\<close>

text \<open>
  Creating a folder keeps every stored path consistent with the names and the parent
  paths, in a collection whose identifiers are distinct.
\<close>

lemma createFolder_preserves_consistency:
  assumes made: "createFolder newId d u name parentFolderId = (Created, d')"
    and dist: "distinct (map fId (folders d))"
    and inv: "pathsConsistent d"
  shows "pathsConsistent d'"
proof -
  from made obtain path where
    path: "(case parentFolderId of
                 None \<Rightarrow> Some (trim name)
               | Some pid \<Rightarrow>
                   (case findOne (\<lambda>f. fId f = pid \<and> fUser f = u) (folders d) of
                      None \<Rightarrow> None
                    | Some parentFolder \<Rightarrow> Some (fPath parentFolder @ ''/'' @ trim name))) = Some path"
    and d': "d' = d\<lparr>folders := folders d @ [\<lparr> fId = newId, fName = trim name,
                fParentFolder = parentFolderId, fUser = u, fPath = path, fIsDeleted = False,
                fDeletedAt = None \<rparr>]\<rparr>"
    by (auto simp: createFolder_def Let_def split: if_splits option.splits)
  let ?f = "\<lparr> fId = newId, fName = trim name, fParentFolder = parentFolderId, fUser = u,
              fPath = path, fIsDeleted = False, fDeletedAt = None \<rparr>"
  have old: "list_all (pathConsistent (folders d @ [?f])) (folders d)"
    using inv by (auto simp: pathsConsistent_def list_all_iff intro: pathConsistent_append)
  have new: "pathConsistent (folders d @ [?f]) ?f"
  proof (cases parentFolderId)
    case None
    with path show ?thesis by (simp add: pathConsistent_def computePath_def)
  next
    case (Some pid)
    with path obtain p where p: "findOne (\<lambda>f. fId f = pid \<and> fUser f = u) (folders d) = Some p"
      and eq: "path = fPath p @ ''/'' @ trim name"
      by (auto split: option.splits)
    from p have pm: "p \<in> set (folders d)" "fId p = pid" by (auto dest: findOne_Some_mem)
    then obtain p' where p': "findOne (\<lambda>g. fId g = pid) (folders d) = Some p'"
      using findOne_None_iff [of "\<lambda>g. fId g = pid" "folders d"]
      by (cases "findOne (\<lambda>g. fId g = pid) (folders d)") auto
    then have "fId p' = pid" by (auto dest: findOne_Some_mem)
    with findOne_unique_id [OF dist p p'] pm have "p' = p" by simp
    with p' have "findOne (\<lambda>g. fId g = pid) (folders d @ [?f]) = Some p"
      by (simp add: findOne_append_found)
    with Some eq show ?thesis by (simp add: pathConsistent_def computePath_def)
  qed
  from old new show ?thesis by (simp add: pathsConsistent_def d')
qed

text \<open>
  C2. The claim: after every create and every rename, each folder's path is its
  parent's path, the separator and its own name (its name alone for a root folder).
  Rename rewrites the descendants with \<^verbatim>\<open>replace\<close>, which reads \<^verbatim>\<open>$$\<close> in
  the new path as one dollar sign. In \<open>docsStore\<close> every path is consistent;
  renaming the root folder \<open>A\<close> to \<^verbatim>\<open>$$\<close> succeeds and stores the path
  \<^verbatim>\<open>$$\<close> for it, but the path \<^verbatim>\<open>$/Docs\<close> for its child, so the paths are no
  longer consistent.
\<close>

theorem rename_breaks_path_consistency:
  "pathsConsistent docsStore
   \<and> renameFolder docsStore 7 1 ''$$'' = Some (Ok, dollarStore)
   \<and> \<not> pathsConsistent dollarStore"
  by (simp add: handler_defs pathsConsistent_def pathConsistent_def computePath_def
      indexClash_def saveFolder_def replace_def trim_def isSpace_def store_defs query_defs)

section \<open>C3: the rewrite of descendant paths on rename\<close>

text \<open>
  When the old path has no regular-expression metacharacter, the new path has no
  dollar sign and the identifiers are distinct, rename saves the folder under its new
  name and path and then gives every folder of the owner whose path continues the old
  path after the separator the new path followed by the rest of its own; every other
  folder is as it was. The paths are read after the save: the renamed folder is
  rewritten a second time when its new path continues the old one, as with the new
  name \<^verbatim>\<open>A/B\<close> for the root folder \<open>A\<close>, whose path ends as \<^verbatim>\<open>A/B/B\<close>.
\<close>

lemma renameFolder_on_plain_paths:
  assumes name: "trim name \<noteq> []"
    and found: "findOne (\<lambda>f. fId f = fid \<and> fUser f = u \<and> \<not> fIsDeleted f) (folders d) = Some F"
    and nodup: "findOne (\<lambda>g. fId g \<noteq> fid \<and> fParentFolder g = fParentFolder F \<and> fUser g = u
                   \<and> fName g = trim name \<and> \<not> fIsDeleted g) (folders d) = None"
    and newPath: "(case fParentFolder F of
                     None \<Rightarrow> Some (trim name)
                   | Some pid \<Rightarrow> map_option (\<lambda>parent. fPath parent @ ''/'' @ trim name)
                                  (findOne (\<lambda>g. fId g = pid) (folders d))) = Some np"
    and noclash: "\<not> indexClash (F\<lparr>fName := trim name, fPath := np\<rparr>) (folders d)"
    and lit: "\<not> list_ex regexMeta (fPath F)"
    and nodollar: "CHR ''$'' \<notin> set np"
    and dist: "distinct (map fId (folders d))"
  shows "renameFolder d u fid name =
     Some (Ok, d\<lparr>folders :=
       map (\<lambda>g. if fUser g = u \<and> prefix (fPath F @ ''/'') (fPath g)
                then g\<lparr>fPath := np @ drop (length (fPath F)) (fPath g)\<rparr> else g)
         (map (\<lambda>g. if fId g = fid then F\<lparr>fName := trim name, fPath := np\<rparr> else g) (folders d))\<rparr>)"
proof -
  let ?renamed = "F\<lparr>fName := trim name, fPath := np\<rparr>"
  let ?saved = "map (\<lambda>g. if fId g = fid then ?renamed else g) (folders d)"
  let ?P = "\<lambda>g. fUser g = u \<and> prefix (fPath F @ ''/'') (fPath g)"
  let ?upd = "\<lambda>sub. sub\<lparr>fPath := replace (fPath sub) (fPath F) np\<rparr>"
  from found have Fid: "fId F = fid" by (auto dest: findOne_Some_mem)
  have saved: "saveFolder ?renamed (folders d) = ?saved"
    using dist by (simp add: saveFolder_distinct Fid)
  have dsaved: "distinct (map fId ?saved)"
  proof -
    have "map fId ?saved = map fId (folders d)" by (simp add: Fid)
    then show ?thesis by (simp only: dist)
  qed
  have lit': "\<not> list_ex regexMeta (fPath F @ ''/'')" using lit by (simp add: regexMeta_def)
  have query: "findByPathRegex pcre u (CHR ''^'' # fPath F @ ''/'') ?saved = Returns (filter ?P ?saved)"
    using findByPathRegex_caret [OF lit', of u ?saved] by simp
  have dsubs: "distinct (map fId (filter ?P ?saved))"
    using dsaved by (rule distinct_map_filter)
  have loop: "fold (\<lambda>sub. saveFolder (?upd sub)) (filter ?P ?saved) ?saved
                = map (\<lambda>g. if ?P g then ?upd g else g) ?saved"
  proof -
    have "fold (\<lambda>sub. saveFolder (?upd sub)) (filter ?P ?saved) ?saved
        = map (\<lambda>g. case List.find (\<lambda>s. fId s = fId g) (filter ?P ?saved) of
                      None \<Rightarrow> g | Some s \<Rightarrow> ?upd s) ?saved"
      by (rule fold_saveFolder [OF _ dsaved dsubs]) simp
    also have "\<dots> = map (\<lambda>g. if ?P g then ?upd g else g) ?saved"
    proof (rule map_cong [OF refl])
      fix g assume "g \<in> set ?saved"
      from find_in_filter_distinct [OF dsaved this, of ?P]
      show "(case List.find (\<lambda>s. fId s = fId g) (filter ?P ?saved) of
                      None \<Rightarrow> g | Some s \<Rightarrow> ?upd s) = (if ?P g then ?upd g else g)"
        by simp
    qed
    finally show ?thesis .
  qed
  have rewrite: "map (\<lambda>g. if ?P g then ?upd g else g) ?saved
        = map (\<lambda>g. if ?P g then g\<lparr>fPath := np @ drop (length (fPath F)) (fPath g)\<rparr> else g) ?saved"
  proof (rule map_cong [OF refl])
    fix g assume "g \<in> set ?saved"
    show "(if ?P g then ?upd g else g)
        = (if ?P g then g\<lparr>fPath := np @ drop (length (fPath F)) (fPath g)\<rparr> else g)"
    proof (cases "?P g")
      case True
      then have "prefix (fPath F) (fPath g)" by (auto simp: prefix_def)
      from replace_leading [OF this nodollar] True show ?thesis by simp
    next
      case False
      then show ?thesis by auto
    qed
  qed
  have run: "renameFolder d u fid name =
      Some (Ok, d\<lparr>folders := fold (\<lambda>sub. saveFolder (?upd sub)) (filter ?P ?saved) ?saved\<rparr>)"
    using name found nodup newPath noclash
    by (simp add: renameFolder_def renameFolderOn_def Let_def saved query del: map_map)
  show ?thesis by (simp only: run loop rewrite)
qed

text \<open>
  C3. The claim: on every rename from path \<open>P\<close> to path \<open>P'\<close>, each proper
  descendant's path becomes \<open>P'\<close> followed by what came after \<open>P\<close>. The loop
  calls \<^verbatim>\<open>sub.path.replace(oldPath, folder.path)\<close>, and \<^verbatim>\<open>replace\<close> expands
  dollar sequences of its second argument: renaming \<open>A\<close> to \<^verbatim>\<open>$$\<close> gives the
  child \<open>A/Docs\<close> the path \<^verbatim>\<open>$/Docs\<close>, which is not \<^verbatim>\<open>$$\<close> followed by
  \<^verbatim>\<open>/Docs\<close>.
\<close>

theorem rename_expands_dollar_in_descendant:
  "map_option (\<lambda>(r, d). (r, map fPath (folders d))) (renameFolder docsStore 7 1 ''$$'')
     = Some (Ok, [''$$'', ''$/Docs''])
   \<and> ''$/Docs'' \<noteq> ''$$'' @ ''/Docs''"
  by (simp add: handler_defs indexClash_def saveFolder_def replace_def trim_def isSpace_def
      store_defs query_defs)

section \<open>C4: soft delete, twice\<close>




section \<open>C5: creating a folder\<close>

text \<open>
  C5. The claim: create fails with NotFound when the parent is not a folder of the
  caller, and with Conflict when a sibling already has the name. The first holds.
  The create route has no check for a sibling of the same name, unlike the rename
  route, which answers status 400 with a message of its own; a second \<open>Docs\<close>
  under \<open>A\<close> is refused only by the unique index when the document is saved, and
  the route answers with the status 500 of its catch-all handler. The first create
  succeeds with the path \<open>A/Docs\<close>.
\<close>

theorem create_duplicate_is_server_error:
  "createFolder 2 rootStore 7 ''Docs'' (Some 9) = (NotFound, rootStore)
   \<and> createFolder 2 rootStore 7 ''Docs'' (Some 1) = (Created, docsStore)
   \<and> map fPath (folders docsStore) = [''A'', ''A/Docs'']
   \<and> createFolder 3 docsStore 7 ''Docs'' (Some 1) = (ServerError, docsStore)
   \<and> fst (createFolder 3 docsStore 7 ''Docs'' (Some 1)) \<noteq> Conflict"
  by (simp add: createFolder_def indexClash_def trim_def isSpace_def store_defs query_defs)

section \<open>C6: a destroy call that fails\<close>

text \<open>
  C6. The claim: in hard delete, in permanent delete and in the sweeper, a
  \<^verbatim>\<open>destroy\<close> call that fails does not stop the operation. Hard delete catches
  the failure of each call. Permanent delete and \<^verbatim>\<open>cleanupOldTrash\<close> do not:
  with an object store that fails for the first image, permanent delete of the
  trashed folder \<open>A\<close> answers status 500, removes no record and never calls
  \<^verbatim>\<open>destroy\<close> for the second image, and the sweeper, run 31 days later, removes
  no record either. Hard delete of the same folder on the same store goes through
  all three images and removes the records.
\<close>

theorem destroy_failure_aborts_trash_routes:
  "permanentDelete coverFails (trashedTree 5 6) 7 FolderItem 1
     = (ServerError, trashedTree 5 6, [(''image-app/cover'', False)])
   \<and> cleanupOldTrash coverFails 2678400000 (trashedTree 5 6)
     = (trashedTree 5 6, [(''image-app/cover'', False)])
   \<and> hardDelete coverFails (trashedTree 5 6) 7 1
     = Some (Ok,
         \<lparr> folders =
             [\<lparr> fId = 3, fName = ''B'', fParentFolder = None, fUser = 7, fPath = ''B'',
                fIsDeleted = False, fDeletedAt = None \<rparr>],
           images = [] \<rparr>,
         [(''image-app/cover'', False), (''image-app/old'', True), (''image-app/scan'', True)])"
  by (simp add: permanentDelete_def cleanupOldTrash_def handler_defs DAYS_TO_KEEP_def
      olderThan_def store_defs query_defs)

section \<open>C7: restoring a folder\<close>

text \<open>
  Restore of a folder answers NotFound, and changes nothing, exactly when the caller
  has no folder with that identifier in the trash. Otherwise it answers status 200
  and one folder document changes, the trashed folder itself, which gets
  \<^verbatim>\<open>isDeleted = false\<close> and no \<^verbatim>\<open>deletedAt\<close>; no subfolder is restored. No
  image changes in either case.
\<close>

lemma restore_folder_resets_folder_only:
  assumes "restoreItem d u FolderItem fid = (r, d')"
  shows "(r = NotFound \<longleftrightarrow> \<not> (\<exists>f \<in> set (folders d). fId f = fid \<and> fUser f = u \<and> fIsDeleted f))
       \<and> (r = NotFound \<longrightarrow> d' = d)
       \<and> (r \<noteq> NotFound \<longrightarrow>
            r = Ok
          \<and> (\<exists>k<length (folders d).
                fId (folders d ! k) = fid \<and> fUser (folders d ! k) = u \<and> fIsDeleted (folders d ! k)
              \<and> folders d' = (folders d)[k := (folders d ! k)\<lparr>fIsDeleted := False, fDeletedAt := None\<rparr>]))
       \<and> images d' = images d"
proof (cases "findOne (\<lambda>f. fId f = fid \<and> fUser f = u \<and> fIsDeleted f) (folders d)")
  case None
  then have "\<not> (\<exists>f \<in> set (folders d). fId f = fid \<and> fUser f = u \<and> fIsDeleted f)"
    by (simp add: findOne_None_iff)
  moreover from None assms have "r = NotFound" "d' = d"
    by (auto simp: restoreItem_folder_NotFound)
  ultimately show ?thesis by simp
next
  case (Some F)
  let ?p = "\<lambda>f. fId f = fid \<and> fUser f = u \<and> fIsDeleted f"
  let ?g = "\<lambda>f. f\<lparr>fIsDeleted := False, fDeletedAt := None\<rparr>"
  from Some assms have r: "r = Ok"
    and fs: "folders d' = updateFirst ?p ?g (folders d)"
    and im: "images d' = images d"
    by (auto simp: restoreItem_folder_Ok)
  from Some have ex: "\<exists>f \<in> set (folders d). ?p f"
    by (auto dest: findOne_Some_mem)
  from updateFirst_nth [OF Some, of ?g] obtain k where k: "k < length (folders d)"
    "folders d ! k = F" "?p F" "updateFirst ?p ?g (folders d) = (folders d)[k := ?g F]"
    by blast
  have upd: "\<exists>k<length (folders d).
                fId (folders d ! k) = fid \<and> fUser (folders d ! k) = u \<and> fIsDeleted (folders d ! k)
              \<and> folders d' = (folders d)[k := ?g (folders d ! k)]"
    using k fs by (intro exI [of _ k]) simp
  have notNF: "r \<noteq> NotFound" using r by simp
  show ?thesis
    apply (intro conjI impI)
    subgoal using notNF ex by blast
    subgoal using notNF by blast
    subgoal by (rule r)
    subgoal by (rule upd)
    subgoal by (rule im)
    done
qed


section \<open>C8: soft delete, then restore\<close>




section \<open>C9: hard delete\<close>

text \<open>
  Hard delete answers NotFound exactly when the caller has no folder with that
  identifier, whether or not the folder is in the trash. For a folder whose path has
  no regular-expression metacharacter it answers status 200, no folder of the caller
  on a descendant path and no image of such a folder is left, and the log of
  \<^verbatim>\<open>destroy\<close> calls has one entry for each removed image that has a public
  identifier, in order.
\<close>

lemma hardDelete_on_plain_path:
  "((\<exists>d' calls. hardDelete destroy d u fid = Some (NotFound, d', calls))
      \<longleftrightarrow> \<not> (\<exists>f \<in> set (folders d). fId f = fid \<and> fUser f = u))
   \<and> (\<forall>F. findOne (\<lambda>f. fId f = fid \<and> fUser f = u) (folders d) = Some F
            \<and> \<not> list_ex regexMeta (fPath F) \<longrightarrow>
        (\<exists>d' calls. hardDelete destroy d u fid = Some (Ok, d', calls)
           \<and> (\<forall>g \<in> set (folders d). fUser g = u \<and> isDescendantPath (fPath g) (fPath F) \<longrightarrow>
                 (\<forall>h \<in> set (folders d'). fId h \<noteq> fId g)
               \<and> (\<forall>i \<in> set (images d'). iFolder i \<noteq> fId g))
           \<and> calls = map (\<lambda>i. (iCloudinaryPublicId i, destroy (iCloudinaryPublicId i)))
                       (filter (\<lambda>i. iCloudinaryPublicId i \<noteq> [] \<and> i \<notin> set (images d')) (images d))))"
proof (intro conjI allI impI)
  show "(\<exists>d' calls. hardDelete destroy d u fid = Some (NotFound, d', calls))
      \<longleftrightarrow> \<not> (\<exists>f \<in> set (folders d). fId f = fid \<and> fUser f = u)"
    by (rule hardDelete_NotFound_iff)
next
  fix F
  assume A: "findOne (\<lambda>f. fId f = fid \<and> fUser f = u) (folders d) = Some F
            \<and> \<not> list_ex regexMeta (fPath F)"
  let ?ids = "fId ` {g \<in> set (folders d). fUser g = u \<and> prefix (fPath F) (fPath g)}"
  let ?d' = "d\<lparr>images := filter (\<lambda>i. iFolder i \<notin> ?ids) (images d),
               folders := filter (\<lambda>f. fId f \<notin> ?ids) (folders d)\<rparr>"
  let ?calls = "destroyEachCaught destroy (filter (\<lambda>i. iFolder i \<in> ?ids) (images d))"
  from A have run: "hardDelete destroy d u fid = Some (Ok, ?d', ?calls)"
    by (intro hardDelete_found) simp_all
  have gone: "\<forall>g \<in> set (folders d). fUser g = u \<and> isDescendantPath (fPath g) (fPath F) \<longrightarrow>
                 (\<forall>h \<in> set (folders ?d'). fId h \<noteq> fId g)
               \<and> (\<forall>i \<in> set (images ?d'). iFolder i \<noteq> fId g)"
  proof (intro ballI impI)
    fix g assume g: "g \<in> set (folders d)" "fUser g = u \<and> isDescendantPath (fPath g) (fPath F)"
    then have "fId g \<in> ?ids" by (auto dest: descendant_is_prefixed)
    then show "(\<forall>h \<in> set (folders ?d'). fId h \<noteq> fId g)
               \<and> (\<forall>i \<in> set (images ?d'). iFolder i \<noteq> fId g)"
      by auto
  qed
  have "filter (\<lambda>i. iCloudinaryPublicId i \<noteq> [] \<and> i \<notin> set (images ?d')) (images d)
        = filter (\<lambda>i. iCloudinaryPublicId i \<noteq> []) (filter (\<lambda>i. iFolder i \<in> ?ids) (images d))"
    by (auto intro: filter_cong)
  then have log: "?calls = map (\<lambda>i. (iCloudinaryPublicId i, destroy (iCloudinaryPublicId i)))
                       (filter (\<lambda>i. iCloudinaryPublicId i \<noteq> [] \<and> i \<notin> set (images ?d')) (images d))"
    by (simp only: destroyEachCaught_map)
  from run gone log
  show "\<exists>d' calls. hardDelete destroy d u fid = Some (Ok, d', calls)
           \<and> (\<forall>g \<in> set (folders d). fUser g = u \<and> isDescendantPath (fPath g) (fPath F) \<longrightarrow>
                 (\<forall>h \<in> set (folders d'). fId h \<noteq> fId g)
               \<and> (\<forall>i \<in> set (images d'). iFolder i \<noteq> fId g))
           \<and> calls = map (\<lambda>i. (iCloudinaryPublicId i, destroy (iCloudinaryPublicId i)))
                       (filter (\<lambda>i. iCloudinaryPublicId i \<noteq> [] \<and> i \<notin> set (images d')) (images d))"
    by blast
qed

text \<open>
  C9. The claim: hard delete, when it succeeds, removes every folder and image
  record of the subtree and issues one \<^verbatim>\<open>destroy\<close> call per image with a payload
  reference. The subtree is searched with the expression \<^verbatim>\<open>^\<close> followed by the
  path, unescaped, as in C1. For the folder \<^verbatim>\<open>Cash$\<close> the expression is
  \<^verbatim>\<open>^Cash$\<close>, which the path \<^verbatim>\<open>Cash$\<close> does not match: hard delete answers
  status 200, and the folder, which is on its own descendant path, and its image
  are still there, with no \<^verbatim>\<open>destroy\<close> call made.
\<close>

theorem hardDelete_leaves_folder_with_dollar:
  "hardDelete (\<lambda>p. True) cashStore 7 1 = Some (Ok, cashStore, [])
   \<and> map fPath (folders cashStore) = [''Cash$'']
   \<and> map iCloudinaryPublicId (images cashStore) = [''image-app/bill'']
   \<and> isDescendantPath ''Cash$'' ''Cash$''"
  by (simp add: handler_defs isDescendantPath_def store_defs query_defs)

section \<open>C10: permanent delete of a folder\<close>

text \<open>
  C10. Permanent delete of a folder, whatever it answers, leaves the documents of all
  other folders, in their order, and the images of all other folders as they were:
  there is no cascade, and the subfolders trashed with the folder stay in the
  collection with their images. When it answers status 200, in a collection with
  distinct identifiers, no folder with that identifier and no image of the caller in
  that folder is left. It answers status 200 when the caller has the folder in the
  trash and \<^verbatim>\<open>destroy\<close> succeeds for the caller's images in it.
\<close>

theorem permanentDelete_folder_no_cascade:
  assumes "permanentDelete destroy d u FolderItem fid = (r, d', calls)"
  shows "filter (\<lambda>g. fId g \<noteq> fid) (folders d') = filter (\<lambda>g. fId g \<noteq> fid) (folders d)
       \<and> filter (\<lambda>i. iFolder i \<noteq> fid) (images d') = filter (\<lambda>i. iFolder i \<noteq> fid) (images d)
       \<and> (r = Ok \<and> distinct (map fId (folders d)) \<longrightarrow>
            (\<forall>g \<in> set (folders d'). fId g \<noteq> fid)
          \<and> (\<forall>i \<in> set (images d'). \<not> (iFolder i = fid \<and> iUser i = u)))
       \<and> ((\<exists>f \<in> set (folders d). fId f = fid \<and> fUser f = u \<and> fIsDeleted f)
          \<and> (\<forall>i \<in> set (images d). iFolder i = fid \<and> iUser i = u \<and> iCloudinaryPublicId i \<noteq> []
                 \<longrightarrow> destroy (iCloudinaryPublicId i))
          \<longrightarrow> r = Ok)"
proof -
  from permanentDelete_folder_cases [OF assms]
  consider (failed) "r \<noteq> Ok" "d' = d"
    | (purged) "r = Ok"
        "folders d' = deleteOne (\<lambda>f. fId f = fid) (folders d)"
        "images d' = filter (\<lambda>i. \<not> (iFolder i = fid \<and> iUser i = u)) (images d)"
    by blast
  then have frameF: "filter (\<lambda>g. fId g \<noteq> fid) (folders d') = filter (\<lambda>g. fId g \<noteq> fid) (folders d)"
  proof cases
    case failed then show ?thesis by simp
  next
    case purged
    from purged show ?thesis using deleteOne_others [of "\<lambda>f. fId f = fid" "folders d"] by simp
  qed
  from permanentDelete_folder_cases [OF assms]
  have frameI: "filter (\<lambda>i. iFolder i \<noteq> fid) (images d') = filter (\<lambda>i. iFolder i \<noteq> fid) (images d)"
    by (auto intro: filter_cong)
  have removed: "r = Ok \<and> distinct (map fId (folders d)) \<longrightarrow>
            (\<forall>g \<in> set (folders d'). fId g \<noteq> fid)
          \<and> (\<forall>i \<in> set (images d'). \<not> (iFolder i = fid \<and> iUser i = u))"
    using permanentDelete_folder_cases [OF assms] deleteOne_distinct [of fId "folders d" fid]
    by auto
  have succeeds: "(\<exists>f \<in> set (folders d). fId f = fid \<and> fUser f = u \<and> fIsDeleted f)
          \<and> (\<forall>i \<in> set (images d). iFolder i = fid \<and> iUser i = u \<and> iCloudinaryPublicId i \<noteq> []
                 \<longrightarrow> destroy (iCloudinaryPublicId i))
          \<longrightarrow> r = Ok"
  proof
    assume H: "(\<exists>f \<in> set (folders d). fId f = fid \<and> fUser f = u \<and> fIsDeleted f)
          \<and> (\<forall>i \<in> set (images d). iFolder i = fid \<and> iUser i = u \<and> iCloudinaryPublicId i \<noteq> []
                 \<longrightarrow> destroy (iCloudinaryPublicId i))"
    then obtain F where F: "findOne (\<lambda>f. fId f = fid \<and> fUser f = u \<and> fIsDeleted f) (folders d) = Some F"
      using findOne_None_iff [of "\<lambda>f. fId f = fid \<and> fUser f = u \<and> fIsDeleted f" "folders d"]
      by (cases "findOne (\<lambda>f. fId f = fid \<and> fUser f = u \<and> fIsDeleted f) (folders d)") auto
    from H have "snd (destroyEach destroy (filter (\<lambda>i. iFolder i = fid \<and> iUser i = u) (images d)))"
      by (intro destroyEach_finished) simp
    with F assms show "r = Ok"
      by (auto simp: permanentDelete_def split: prod.splits)
  qed
  from frameF frameI removed succeeds show ?thesis by blast
qed

text \<open>
  C10 at \<open>trashedTree 5 6\<close>: permanent delete of \<open>A\<close> leaves the trashed
  subfolder \<open>Docs\<close> and its image in the store.
\<close>

theorem permanentDelete_folder_no_cascade_witness:
  "permanentDelete (\<lambda>p. True) (trashedTree 5 6) 7 FolderItem 1
     = (Ok, purgedTree, [(''image-app/cover'', True), (''image-app/old'', True)])
   \<and> distinct (map fId (folders (trashedTree 5 6)))
   \<and> (\<exists>f \<in> set (folders (trashedTree 5 6)). fId f = 1 \<and> fUser f = 7 \<and> fIsDeleted f)
   \<and> filter (\<lambda>g. fId g \<noteq> 1) (folders purgedTree)
       = filter (\<lambda>g. fId g \<noteq> 1) (folders (trashedTree 5 6))
   \<and> filter (\<lambda>i. iFolder i \<noteq> 1) (images purgedTree)
       = filter (\<lambda>i. iFolder i \<noteq> 1) (images (trashedTree 5 6))
   \<and> list_all (\<lambda>g. fId g \<noteq> 1) (folders purgedTree)
   \<and> list_all (\<lambda>i. \<not> (iFolder i = 1 \<and> iUser i = 7)) (images purgedTree)
   \<and> map fPath (folders purgedTree) = [''A/Docs'', ''B'']"
proof -
  have h: "permanentDelete (\<lambda>p. True) (trashedTree 5 6) 7 FolderItem 1
     = (Ok, purgedTree, [(''image-app/cover'', True), (''image-app/old'', True)])"
    by (simp add: permanentDelete_def store_defs query_defs)
  have dist: "distinct (map fId (folders (trashedTree 5 6)))"
    by (simp add: trashedTree_def)
  have ex: "\<exists>f \<in> set (folders (trashedTree 5 6)). fId f = 1 \<and> fUser f = 7 \<and> fIsDeleted f"
    by (simp add: trashedTree_def)
  have left: "map fPath (folders purgedTree) = [''A/Docs'', ''B'']"
    by (simp add: purgedTree_def)
  from permanentDelete_folder_no_cascade [OF h] dist
  have frameF: "filter (\<lambda>g. fId g \<noteq> 1) (folders purgedTree)
       = filter (\<lambda>g. fId g \<noteq> 1) (folders (trashedTree 5 6))"
    and frameI: "filter (\<lambda>i. iFolder i \<noteq> 1) (images purgedTree)
       = filter (\<lambda>i. iFolder i \<noteq> 1) (images (trashedTree 5 6))"
    and goneF: "\<forall>g \<in> set (folders purgedTree). fId g \<noteq> 1"
    and goneI: "\<forall>i \<in> set (images purgedTree). \<not> (iFolder i = 1 \<and> iUser i = 7)"
    by blast+
  from h dist ex frameF frameI goneF goneI left show ?thesis
    unfolding list_all_iff by (intro conjI)
qed

end
